theory Spec2Isabelle
  imports Main "HOL-Library.AList"
begin

section \<open>Strings of the host language\<close>

text \<open>
  The runtime is TypeScript: a string is a sequence of code units. The embedding uses
  \<^typ>\<open>string\<close> (a list of \<^typ>\<open>char\<close>), so a character stands for a code unit
  below 256. The regular expressions of the source carry no \<open>i\<close>, \<open>u\<close> or \<open>s\<close>
  flag; each of them is embedded as the scanner it denotes: the engine tries a match
  at every position from left to right, and every quantifier of these expressions is
  followed by a character outside its class, so the greedy match is the maximal run.
\<close>

definition backslash :: char where
  "backslash = CHR 0x5C"

definition isWhiteSpace :: "char \<Rightarrow> bool" where
  \<comment> \<open>\<open>\s\<close> and the characters removed by \<open>trim\<close>, below code unit 256\<close>
  "isWhiteSpace c = (c \<in> set [CHR 0x09, CHR 0x0A, CHR 0x0B, CHR 0x0C, CHR 0x0D, CHR 0x20, CHR 0xA0])"

definition isDigit :: "char \<Rightarrow> bool" where
  "isDigit c = (48 \<le> (of_char c :: nat) \<and> (of_char c :: nat) \<le> 57)"

definition isLower :: "char \<Rightarrow> bool" where
  "isLower c = (97 \<le> (of_char c :: nat) \<and> (of_char c :: nat) \<le> 122)"

definition isUpper :: "char \<Rightarrow> bool" where
  "isUpper c = (65 \<le> (of_char c :: nat) \<and> (of_char c :: nat) \<le> 90)"

definition trim :: "string \<Rightarrow> string" where
  "trim s = rev (dropWhile isWhiteSpace (rev (dropWhile isWhiteSpace s)))"

definition startsWith :: "string \<Rightarrow> string \<Rightarrow> bool" where
  \<comment> \<open>\<open>s.startsWith(p)\<close>\<close>
  "startsWith s p = (take (length p) s = p)"

fun stripPrefix :: "string \<Rightarrow> string \<Rightarrow> string option" where
  \<comment> \<open>the rest of the subject after a literal piece of a pattern, if it is there\<close>
  "stripPrefix [] s = Some s"
| "stripPrefix (p # ps) [] = None"
| "stripPrefix (p # ps) (c # cs) = (if p = c then stripPrefix ps cs else None)"

fun splitAux :: "char \<Rightarrow> string \<Rightarrow> string \<Rightarrow> string list" where
  "splitAux d cur [] = [rev cur]"
| "splitAux d cur (c # cs) =
     (if c = d then rev cur # splitAux d [] cs else splitAux d (c # cur) cs)"

definition split :: "string \<Rightarrow> char \<Rightarrow> string list" where
  \<comment> \<open>\<open>s.split(d)\<close> for a separator of one character\<close>
  "split s d = splitAux d [] s"

fun join :: "string list \<Rightarrow> string \<Rightarrow> string" where
  \<comment> \<open>\<open>parts.join(sep)\<close>\<close>
  "join [] sep = []"
| "join [p] sep = p"
| "join (p # q # ps) sep = p @ sep @ join (q # ps) sep"

section \<open>Class names and variants\<close>

text \<open>
  \<open>testVariants\<close> splits the class name with \<^verbatim>\<open>/\:(?![^\[]*\])/g\<close>: a colon is a
  delimiter unless the text after it consists of characters other than an opening
  bracket up to a closing bracket.
\<close>

fun closesBracket :: "string \<Rightarrow> bool" where
  \<comment> \<open>the lookahead body \<^verbatim>\<open>[^\[]*\]\<close> matches at the start of the text\<close>
  "closesBracket [] = False"
| "closesBracket (c # cs) =
     (if c = CHR '']'' then True else if c = CHR ''['' then False else closesBracket cs)"

fun splitClassAux :: "string \<Rightarrow> string \<Rightarrow> string list" where
  "splitClassAux cur [] = [rev cur]"
| "splitClassAux cur (c # cs) =
     (if c = CHR '':'' \<and> \<not> closesBracket cs then rev cur # splitClassAux [] cs
      else splitClassAux (c # cur) cs)"

definition splitClassName :: "string \<Rightarrow> string list" where
  "splitClassName className = splitClassAux [] className"

definition pop :: "'a list \<Rightarrow> 'a list \<times> 'a list" where
  \<comment> \<open>\<open>parts.pop()\<close>: the array left behind, and the removed element (none on an empty array)\<close>
  "pop xs = (case rev xs of [] \<Rightarrow> ([], []) | y # ys \<Rightarrow> (rev ys, [y]))"

definition variants :: "string \<Rightarrow> string list" where
  \<comment> \<open>what is left in \<open>parts\<close> after \<open>parts.pop()\<close>\<close>
  "variants className = fst (pop (splitClassName className))"

definition base :: "string \<Rightarrow> string list" where
  \<comment> \<open>the segment removed by \<open>parts.pop()\<close>\<close>
  "base className = snd (pop (splitClassName className))"

fun includes_list :: "'a list \<Rightarrow> 'a \<Rightarrow> bool" where
  \<comment> \<open>\<open>xs.includes(x)\<close>\<close>
  "includes_list [] x = False"
| "includes_list (y # ys) x = (if y = x then True else includes_list ys x)"

fun allVariantsActive :: "string list \<Rightarrow> string list \<Rightarrow> bool" where
  \<comment> \<open>the \<open>for\<close> loop of \<open>testVariants\<close>, leaving at the first variant that is not active\<close>
  "allVariantsActive state [] = True"
| "allVariantsActive state (v # vs) =
     (if \<not> includes_list state v then False else allVariantsActive state vs)"

definition testVariants :: "string \<Rightarrow> string list \<Rightarrow> bool \<Rightarrow> bool" where
  "testVariants className state strict =
     (let parts = variants className in
      if strict \<and> length parts \<noteq> length state then False
      else allVariantsActive state parts)"

section \<open>Selectors\<close>

fun removeBackslashes :: "string \<Rightarrow> string" where
  \<comment> \<open>\<^verbatim>\<open>selector.replace(/\\/g, '')\<close>\<close>
  "removeBackslashes [] = []"
| "removeBackslashes (c # cs) =
     (if c = backslash then removeBackslashes cs else c # removeBackslashes cs)"

definition slice1 :: "string \<Rightarrow> string" where
  \<comment> \<open>\<open>s.slice(1)\<close>\<close>
  "slice1 s = (case s of [] \<Rightarrow> [] | c # cs \<Rightarrow> cs)"

definition cleanSelector :: "string \<Rightarrow> string" where
  "cleanSelector selector = slice1 (removeBackslashes selector)"

section \<open>Values and style objects\<close>

text \<open>
  A style object is a \<open>Record<string, string>\<close> built by assignments: an association
  list in insertion order with one entry per key. A property can hold \<open>undefined\<close>
  (a declaration without a colon) and a lookup can give \<open>null\<close> (a registered property
  without initial value), so values are of type \<open>jsval\<close>.
\<close>

datatype jsval = Undefined | Null | Str string

datatype error =
    InvalidArgument   \<comment> \<open>the \<open>Error\<close> thrown by \<open>getValue\<close>\<close>
  | TypeError         \<comment> \<open>a method called on \<open>undefined\<close> or \<open>null\<close>\<close>
  | SyntaxError       \<comment> \<open>\<open>new RegExp\<close> on a text that is no pattern\<close>

type_synonym style_object = "(string \<times> jsval) list"

definition getProp :: "style_object \<Rightarrow> string \<Rightarrow> jsval" where
  \<comment> \<open>\<open>style[key]\<close>, read, for a key that \<open>Object.prototype\<close> does not hold: the source
      reads names that start with two hyphens\<close>
  "getProp style key = (case map_of style key of None \<Rightarrow> Undefined | Some v \<Rightarrow> v)"

definition setProp :: "string \<Rightarrow> jsval \<Rightarrow> style_object \<Rightarrow> style_object" where
  \<comment> \<open>\<open>style[key] = value\<close>. Without an own property of that name, the key
      \<open>__proto__\<close> reaches the setter of \<open>Object.prototype\<close>, which ignores a value
      that is no object.\<close>
  "setProp key v style =
     (if key = ''__proto__'' \<and> map_of style key = None then style
      else AList.update key v style)"

definition deleteProp :: "string \<Rightarrow> style_object \<Rightarrow> style_object" where
  \<comment> \<open>\<open>delete style[key]\<close>\<close>
  "deleteProp key style = AList.delete key style"

definition digitsValue :: "string \<Rightarrow> int" where
  \<comment> \<open>the number that a string of digits denotes\<close>
  "digitsValue ds = foldl (\<lambda>n c. 10 * n + (of_char c - 48)) 0 ds"

definition isArrayIndex :: "string \<Rightarrow> bool" where
  \<comment> \<open>a canonical numeric string below \<open>2^32 - 1\<close>: such keys are enumerated first\<close>
  "isArrayIndex key =
     (key \<noteq> [] \<and> list_all isDigit key \<and> (length key = 1 \<or> hd key \<noteq> CHR ''0'')
      \<and> digitsValue key < 4294967295)"

definition entries :: "style_object \<Rightarrow> (string \<times> jsval) list" where
  \<comment> \<open>\<open>Object.entries(style)\<close>: integer keys ascending, then the others as inserted\<close>
  "entries style =
     sort_key (\<lambda>(k, v). digitsValue k) (filter (\<lambda>(k, v). isArrayIndex k) style)
     @ filter (\<lambda>(k, v). \<not> isArrayIndex k) style"

definition keys :: "style_object \<Rightarrow> string list" where
  \<comment> \<open>\<open>Object.keys(style)\<close>\<close>
  "keys style = map fst (entries style)"

section \<open>The stylesheet and the runtime\<close>

text \<open>
  The rules of the stylesheet are host objects. The embedding keeps what the source
  tests: the class of a rule (\<open>instanceof\<close>), whether it has \<open>cssRules\<close>, and the
  fields it reads. A style declaration is read through \<open>cssText\<close> and through
  \<open>getPropertyValue\<close>; the two are independent fields here.
\<close>

record css_style_declaration =
  cssText :: string
  properties :: "(string \<times> string) list"

datatype css_rule =
    CSSStyleRule string css_style_declaration "css_rule list"
      \<comment> \<open>\<open>selectorText\<close>, \<open>style\<close>, \<open>cssRules\<close>\<close>
  | CSSNestedDeclarations css_style_declaration
  | CSSGroupingRule "css_rule list"
      \<comment> \<open>any other rule with \<open>cssRules\<close>: media, supports, container\<close>
  | CSSLayerBlockRule string "css_rule list"
      \<comment> \<open>\<open>name\<close>, \<open>cssRules\<close>\<close>
  | CSSPropertyRule string bool "string option"
      \<comment> \<open>\<open>name\<close>, \<open>inherits\<close>, \<open>initialValue\<close> (\<open>None\<close> is \<open>null\<close>)\<close>
  | CSSOtherRule

record runtime =
  tailwind :: "css_rule list"
  themeDeclaration :: "css_style_declaration option"
  utilitiesLayer :: "css_rule option"

definition getPropertyValue :: "css_style_declaration \<Rightarrow> string \<Rightarrow> string" where
  "getPropertyValue decl nm = (case map_of (properties decl) nm of None \<Rightarrow> [] | Some v \<Rightarrow> v)"

fun findPropertyRuleIn :: "css_rule list \<Rightarrow> string \<Rightarrow> css_rule option" where
  "findPropertyRuleIn [] nm = None"
| "findPropertyRuleIn (rule # rules) nm =
     (case rule of
        CSSPropertyRule n inh iv \<Rightarrow> if n = nm then Some rule else findPropertyRuleIn rules nm
      | _ \<Rightarrow> findPropertyRuleIn rules nm)"

definition findPropertyRule :: "runtime \<Rightarrow> string \<Rightarrow> css_rule option" where
  "findPropertyRule rt nm = findPropertyRuleIn (tailwind rt) nm"

fun findLayerRuleIn :: "css_rule list \<Rightarrow> string \<Rightarrow> css_rule option" where
  "findLayerRuleIn [] nm = None"
| "findLayerRuleIn (rule # rules) nm =
     (case rule of
        CSSLayerBlockRule n rs \<Rightarrow> if n = nm then Some rule else findLayerRuleIn rules nm
      | _ \<Rightarrow> findLayerRuleIn rules nm)"

definition constructor :: "css_rule list \<Rightarrow> runtime" where
  \<comment> \<open>the constructor, given the stylesheet\<close>
  "constructor sheet =
     \<lparr> tailwind = sheet,
       themeDeclaration =
         (case findLayerRuleIn sheet ''theme'' of
            Some (CSSLayerBlockRule n (CSSStyleRule sel st rs # others)) \<Rightarrow> Some st
          | _ \<Rightarrow> None),
       utilitiesLayer = findLayerRuleIn sheet ''utilities'' \<rparr>"

fun isCSSStyleRule :: "css_rule \<Rightarrow> bool" where
  "isCSSStyleRule (CSSStyleRule sel st rs) = True"
| "isCSSStyleRule _ = False"

definition allUtilityRules :: "runtime \<Rightarrow> css_rule list" where
  "allUtilityRules rt =
     (case utilitiesLayer rt of
        Some (CSSLayerBlockRule n rs) \<Rightarrow> filter isCSSStyleRule rs
      | _ \<Rightarrow> [])"

fun selectorText :: "css_rule \<Rightarrow> string" where
  \<comment> \<open>read on the rules of \<open>allUtilityRules\<close> only, which are style rules\<close>
  "selectorText (CSSStyleRule sel st rs) = sel"
| "selectorText _ = []"

fun findUtilityRuleIn :: "css_rule list \<Rightarrow> string \<Rightarrow> css_rule option" where
  "findUtilityRuleIn [] nm = None"
| "findUtilityRuleIn (utility # rest) nm =
     (if cleanSelector (selectorText utility) = nm then Some utility
      else findUtilityRuleIn rest nm)"

definition findUtilityRule :: "runtime \<Rightarrow> string \<Rightarrow> css_rule option" where
  "findUtilityRule rt nm = findUtilityRuleIn (allUtilityRules rt) nm"

definition getValue :: "runtime \<Rightarrow> string \<Rightarrow> error + jsval" where
  "getValue rt nm =
     (if \<not> startsWith nm ''--'' then Inl InvalidArgument
      else
        (case (case themeDeclaration rt of
                 None \<Rightarrow> None
               | Some decl \<Rightarrow>
                   if getPropertyValue decl nm \<noteq> [] then Some (getPropertyValue decl nm) else None) of
           Some v \<Rightarrow> Inr (Str v)
         | None \<Rightarrow>
             (case findPropertyRule rt nm of
                Some (CSSPropertyRule n inh iv) \<Rightarrow>
                  if \<not> inh \<and> n = nm then Inr (case iv of None \<Rightarrow> Null | Some v \<Rightarrow> Str v)
                  else Inr Undefined
              | _ \<Rightarrow> Inr Undefined)))"

section \<open>Collapsing a rule into a style object\<close>

definition toUpperCase :: "char \<Rightarrow> char" where
  \<comment> \<open>applied to a lowercase letter matched by \<^verbatim>\<open>[a-z]\<close>\<close>
  "toUpperCase c = (if isLower c then char_of ((of_char c :: nat) - 32) else c)"

definition toLowerCase :: "char \<Rightarrow> char" where
  \<comment> \<open>applied to an uppercase letter matched by \<^verbatim>\<open>[A-Z]\<close>\<close>
  "toLowerCase c = (if isUpper c then char_of ((of_char c :: nat) + 32) else c)"

fun toCamelCase :: "string \<Rightarrow> string" where
  \<comment> \<open>\<^verbatim>\<open>name.replace(/-([a-z])/g, (_, letter) => letter.toUpperCase())\<close>\<close>
  "toCamelCase [] = []"
| "toCamelCase [c] = [c]"
| "toCamelCase (c # d # cs) =
     (if c = CHR ''-'' \<and> isLower d then toUpperCase d # toCamelCase cs
      else c # toCamelCase (d # cs))"

fun toKebabCase :: "string \<Rightarrow> string" where
  \<comment> \<open>\<^verbatim>\<open>name.replace(/[A-Z]/g, (letter) => `-${letter.toLowerCase()}`)\<close>\<close>
  "toKebabCase [] = []"
| "toKebabCase (c # cs) =
     (if isUpper c then CHR ''-'' # toLowerCase c # toKebabCase cs else c # toKebabCase cs)"

definition declarationLines :: "css_style_declaration \<Rightarrow> string list" where
  \<comment> \<open>\<open>rule.style.cssText.split(';').filter(Boolean)\<close>\<close>
  "declarationLines decl = filter (\<lambda>part. part \<noteq> []) (split (cssText decl) CHR '';'')"

definition parseDeclaration :: "string \<Rightarrow> string \<times> jsval" where
  \<comment> \<open>\<open>key\<close> and \<open>value\<close> of the loop over \<open>lines\<close>: \<open>value\<close> is \<open>undefined\<close> when the
      part has no colon, and what follows a second colon is dropped. (\<open>split\<close> gives no
      empty array.)\<close>
  "parseDeclaration part =
     (case map trim (split part CHR '':'') of
        [] \<Rightarrow> ([], Undefined)
      | key # others \<Rightarrow>
          (if \<not> startsWith key ''--'' then toCamelCase key else key,
           case others of [] \<Rightarrow> Undefined | v # dropped \<Rightarrow> Str v))"

definition assignDeclaration :: "string \<Rightarrow> style_object \<Rightarrow> style_object" where
  \<comment> \<open>\<open>target[key] = value\<close>\<close>
  "assignDeclaration part target =
     (case parseDeclaration part of (key, v) \<Rightarrow> setProp key v target)"

fun collapseRule :: "css_rule \<Rightarrow> style_object \<Rightarrow> style_object" where
  \<comment> \<open>the sub-rules first (\<open>isGroupRule\<close>), then the rule's own declarations (\<open>isStyleRule\<close>)\<close>
  "collapseRule (CSSStyleRule sel st rules) target =
     fold assignDeclaration (declarationLines st) (fold collapseRule rules target)"
| "collapseRule (CSSNestedDeclarations st) target =
     fold assignDeclaration (declarationLines st) target"
| "collapseRule (CSSGroupingRule rules) target = fold collapseRule rules target"
| "collapseRule (CSSLayerBlockRule nm rules) target = fold collapseRule rules target"
| "collapseRule (CSSPropertyRule nm inh iv) target = target"
| "collapseRule CSSOtherRule target = target"

section \<open>What the host computes\<close>

text \<open>
  Two computations of the host are parameters of the embedding. The first is the product
  \<^verbatim>\<open>`${parseFloat(a) * parseFloat(b)}`\<close> of \<open>simplify\<close>: parsing, multiplying and
  printing IEEE 754 doubles. The second is \<open>value.replace\<close> with the pattern that
  \<open>substitute\<close> builds from a variable name, for a name that holds a syntax character
  of regular expressions: the name is then read as a pattern, or \<open>new RegExp\<close> throws
  (\<open>None\<close>). For every other name the pattern is the text \<^verbatim>\<open>var(NAME\<close>, an optional
  comma, a closing parenthesis and whitespace, and the search is embedded below.
\<close>

record host =
  numberProduct :: "string \<Rightarrow> string \<Rightarrow> string"
  replaceByPattern :: "string \<Rightarrow> string \<Rightarrow> string \<Rightarrow> string option"
    \<comment> \<open>name, template, value\<close>

section \<open>Substitution of variable references\<close>

definition isNameChar :: "char \<Rightarrow> bool" where
  \<comment> \<open>the class \<^verbatim>\<open>[^),]\<close>\<close>
  "isNameChar c = (c \<noteq> CHR '')'' \<and> c \<noteq> CHR '','')"

definition matchVarName :: "string \<Rightarrow> (string \<times> string) option" where
  \<comment> \<open>\<^verbatim>\<open>var\((--[^),]+),?\)\<close> at the start of the text: the name captured, and the
      text after the match\<close>
  "matchVarName s =
     (case stripPrefix ''var(--'' s of
        None \<Rightarrow> None
      | Some r \<Rightarrow>
          (let run = takeWhile isNameChar r; r1 = dropWhile isNameChar r in
           if run = [] then None
           else (case stripPrefix '')'' r1 of
                   Some rest \<Rightarrow> Some (''--'' @ run, rest)
                 | None \<Rightarrow>
                     (case stripPrefix '',)'' r1 of
                        Some rest \<Rightarrow> Some (''--'' @ run, rest)
                      | None \<Rightarrow> None))))"

lemma stripPrefix_length: "stripPrefix p s = Some r \<Longrightarrow> length r + length p = length s"
  by (induction p s rule: stripPrefix.induct) (auto split: if_splits)

lemma matchVarName_shorter: "matchVarName s = Some (nm, rest) \<Longrightarrow> length rest < length s"
proof -
  assume m: "matchVarName s = Some (nm, rest)"
  then obtain r where r: "stripPrefix ''var(--'' s = Some r"
    by (auto simp: matchVarName_def split: option.splits)
  have d: "length (dropWhile isNameChar r) \<le> length r"
    by (rule length_dropWhile_le)
  from m r have "stripPrefix '')'' (dropWhile isNameChar r) = Some rest
      \<or> stripPrefix '',)'' (dropWhile isNameChar r) = Some rest"
    by (auto simp: matchVarName_def Let_def split: option.splits if_splits)
  then have "length rest < length (dropWhile isNameChar r)"
    by (auto dest: stripPrefix_length)
  with d stripPrefix_length [OF r] show ?thesis by simp
qed

function matchAllVar :: "string \<Rightarrow> string list" where
  \<comment> \<open>the names captured by \<^verbatim>\<open>value.matchAll(/var\((--[^),]+),?\)/g)\<close>, in order\<close>
  "matchAllVar [] = []"
| "matchAllVar (c # cs) =
     (case matchVarName (c # cs) of
        Some (nm, rest) \<Rightarrow> nm # matchAllVar rest
      | None \<Rightarrow> matchAllVar cs)"
  by pat_completeness auto
termination
  by (relation "measure length") (auto dest: matchVarName_shorter)

definition isSyntaxCharacter :: "char \<Rightarrow> bool" where
  "isSyntaxCharacter c =
     (c \<in> set [CHR ''^'', CHR ''$'', backslash, CHR ''.'', CHR ''*'', CHR ''+'', CHR ''?'',
               CHR ''('', CHR '')'', CHR ''['', CHR '']'', CHR ''{'', CHR ''}'', CHR ''|''])"

definition isRegExpLiteral :: "string \<Rightarrow> bool" where
  \<comment> \<open>the name stands for itself inside \<open>new RegExp(...)\<close>\<close>
  "isRegExpLiteral nm = list_all (\<lambda>c. \<not> isSyntaxCharacter c) nm"

definition matchVarRef :: "string \<Rightarrow> string \<Rightarrow> (string \<times> string \<times> string) option" where
  \<comment> \<open>\<^verbatim>\<open>var\(NAME,?\)(\s*)\<close> at the start of the text, for a literal name: the match,
      the captured whitespace, and the text after the match\<close>
  "matchVarRef nm s =
     (case stripPrefix (''var('' @ nm) s of
        None \<Rightarrow> None
      | Some r \<Rightarrow>
          (case (case stripPrefix '')'' r of
                   Some r1 \<Rightarrow> Some ('')'', r1)
                 | None \<Rightarrow> (case stripPrefix '',)'' r of
                              Some r1 \<Rightarrow> Some ('',)'', r1)
                            | None \<Rightarrow> None)) of
             None \<Rightarrow> None
           | Some (closing, r1) \<Rightarrow>
               Some (''var('' @ nm @ closing @ takeWhile isWhiteSpace r1,
                     takeWhile isWhiteSpace r1, dropWhile isWhiteSpace r1)))"

fun getSubstitution :: "string \<Rightarrow> string \<Rightarrow> string \<Rightarrow> string \<Rightarrow> string \<Rightarrow> string" where
  \<comment> \<open>the replacement text that \<open>String.prototype.replace\<close> builds from a template, for
      a pattern with one capture group and no named group: \<open>$$\<close>, \<open>$`\<close>, \<open>$&\<close>, \<open>$'\<close>
      and \<open>$1\<close> (also written \<open>$01\<close>) are interpreted, every other character stands
      for itself\<close>
  "getSubstitution matched left right cap [] = []"
| "getSubstitution matched left right cap [c] = [c]"
| "getSubstitution matched left right cap (c # d # t) =
     (if c \<noteq> CHR ''$'' then c # getSubstitution matched left right cap (d # t)
      else if d = CHR ''$'' then CHR ''$'' # getSubstitution matched left right cap t
      else if d = CHR 0x60 then left @ getSubstitution matched left right cap t
      else if d = CHR ''&'' then matched @ getSubstitution matched left right cap t
      else if d = CHR 0x27 then right @ getSubstitution matched left right cap t
      else if isDigit d then
        (case t of
           [] \<Rightarrow> (if d = CHR ''1'' then cap else [CHR ''$'', d])
         | e # t' \<Rightarrow>
             if d = CHR ''0'' \<and> e = CHR ''1'' then cap @ getSubstitution matched left right cap t'
             else if d = CHR ''0'' \<and> e = CHR ''0''
               then CHR ''$'' # d # e # getSubstitution matched left right cap t'
             else if d = CHR ''1'' then cap @ getSubstitution matched left right cap t
             else CHR ''$'' # d # getSubstitution matched left right cap t)
      else CHR ''$'' # getSubstitution matched left right cap (d # t))"

fun replaceFrom :: "string \<Rightarrow> string \<Rightarrow> string \<Rightarrow> string \<Rightarrow> string" where
  \<comment> \<open>the search of \<open>value.replace(regex, template)\<close> for the first match, \<open>pre\<close>
      holding the text already passed, reversed\<close>
  "replaceFrom nm template pre [] = rev pre"
| "replaceFrom nm template pre (c # cs) =
     (case matchVarRef nm (c # cs) of
        Some (matched, ws, after) \<Rightarrow>
          rev pre @ getSubstitution matched (rev pre) after ws template @ after
      | None \<Rightarrow> replaceFrom nm template (c # pre) cs)"

definition replaceFirstVar :: "string \<Rightarrow> string \<Rightarrow> string \<Rightarrow> string" where
  \<comment> \<open>\<^verbatim>\<open>value.replace(new RegExp(`var\\(${varName}\,?\\)(\\s*)`), template)\<close>\<close>
  "replaceFirstVar varName template v = replaceFrom varName template [] v"

definition replacementTemplate :: "jsval \<Rightarrow> string" where
  \<comment> \<open>\<^verbatim>\<open>resolved ? `${resolved}$1` : ''\<close>\<close>
  "replacementTemplate resolved =
     (case resolved of Str r \<Rightarrow> (if r = [] then [] else r @ ''$1'') | _ \<Rightarrow> [])"

definition lookupValue :: "runtime \<Rightarrow> style_object \<Rightarrow> string \<Rightarrow> error + jsval" where
  \<comment> \<open>\<open>style[varName] ?? this.getValue(varName)\<close>\<close>
  "lookupValue rt style varName =
     (case getProp style varName of
        Str v \<Rightarrow> Inr (Str v)
      | _ \<Rightarrow> getValue rt varName)"

definition replaceVar :: "host \<Rightarrow> string \<Rightarrow> string \<Rightarrow> string \<Rightarrow> string option" where
  \<comment> \<open>\<open>value.replace(regex, template)\<close> for the pattern built from \<open>varName\<close>\<close>
  "replaceVar h varName template v =
     (if isRegExpLiteral varName then Some (replaceFirstVar varName template v)
      else replaceByPattern h varName template v)"

fun substituteRefs ::
  "host \<Rightarrow> runtime \<Rightarrow> style_object \<Rightarrow> string list \<Rightarrow> string \<Rightarrow> error + string" where
  \<comment> \<open>the inner loop of \<open>substitute\<close> over the names matched in the original value\<close>
  "substituteRefs h rt style [] v = Inr v"
| "substituteRefs h rt style (varName # names) v =
     (case lookupValue rt style varName of
        Inl e \<Rightarrow> Inl e
      | Inr Undefined \<Rightarrow> substituteRefs h rt style names v
      | Inr resolved \<Rightarrow>
          (case replaceVar h varName (replacementTemplate resolved) v of
             None \<Rightarrow> Inl SyntaxError
           | Some v' \<Rightarrow> substituteRefs h rt style names v'))"

fun substituteEntries ::
  "host \<Rightarrow> runtime \<Rightarrow> (string \<times> jsval) list \<Rightarrow> style_object \<Rightarrow> error + style_object" where
  \<comment> \<open>the first loop of \<open>substitute\<close>, over the entries taken when it starts\<close>
  "substituteEntries h rt [] style = Inr style"
| "substituteEntries h rt ((key, val) # es) style =
     (case val of
        Str v \<Rightarrow>
          (case substituteRefs h rt style (matchAllVar v) v of
             Inl e \<Rightarrow> Inl e
           | Inr v' \<Rightarrow> substituteEntries h rt es (setProp key (Str (trim v')) style))
      | _ \<Rightarrow> Inl TypeError)"

definition nonInheriting :: "runtime \<Rightarrow> string \<Rightarrow> bool" where
  \<comment> \<open>\<open>prop && !prop.inherits\<close> for \<open>prop = this.findPropertyRule(key)\<close>\<close>
  "nonInheriting rt key =
     (case findPropertyRule rt key of
        Some (CSSPropertyRule n inh iv) \<Rightarrow> \<not> inh
      | _ \<Rightarrow> False)"

definition removeInternal :: "runtime \<Rightarrow> style_object \<Rightarrow> style_object" where
  \<comment> \<open>the second loop of \<open>substitute\<close>\<close>
  "removeInternal rt style =
     fold (\<lambda>key st. if nonInheriting rt key then deleteProp key st else st) (keys style) style"

definition substitute :: "host \<Rightarrow> runtime \<Rightarrow> style_object \<Rightarrow> error + style_object" where
  "substitute h rt style =
     (case substituteEntries h rt (entries style) style of
        Inl e \<Rightarrow> Inl e
      | Inr style' \<Rightarrow> Inr (removeInternal rt style'))"

section \<open>The arithmetic simplifier\<close>

text \<open>
  \<open>simplify\<close> takes the host's product of two numerals as its parameter \<open>mul\<close>; the
  embedding fixes the matching and the rewriting.
\<close>

definition isNumberChar :: "char \<Rightarrow> bool" where
  \<comment> \<open>the class \<^verbatim>\<open>[\d.]\<close>\<close>
  "isNumberChar c = (isDigit c \<or> c = CHR ''.'')"

definition matchCalc :: "string \<Rightarrow> (string \<times> string \<times> string \<times> string) option" where
  \<comment> \<open>\<^verbatim>\<open>calc\(([\d.]+)([a-z]+) \* ([\d.]+)\)\<close> at the start of the text: the three
      captures and the text after the match\<close>
  "matchCalc s =
     (case stripPrefix ''calc('' s of
        None \<Rightarrow> None
      | Some r \<Rightarrow>
          (let a = takeWhile isNumberChar r; r1 = dropWhile isNumberChar r;
               unit = takeWhile isLower r1; r2 = dropWhile isLower r1 in
           if a = [] \<or> unit = [] then None
           else (case stripPrefix '' * '' r2 of
                   None \<Rightarrow> None
                 | Some r3 \<Rightarrow>
                     (let b = takeWhile isNumberChar r3; r4 = dropWhile isNumberChar r3 in
                      if b = [] then None
                      else (case stripPrefix '')'' r4 of
                              None \<Rightarrow> None
                            | Some rest \<Rightarrow> Some (a, unit, b, rest))))))"

lemma matchCalc_shorter: "matchCalc s = Some (a, unit, b, rest) \<Longrightarrow> length rest < length s"
proof -
  assume m: "matchCalc s = Some (a, unit, b, rest)"
  then obtain r where r: "stripPrefix ''calc('' s = Some r"
    by (auto simp: matchCalc_def split: option.splits)
  define r2 where "r2 = dropWhile isLower (dropWhile isNumberChar r)"
  from m r obtain r3 where r3: "stripPrefix '' * '' r2 = Some r3"
    by (auto simp: matchCalc_def Let_def r2_def split: option.splits if_splits)
  from m r r3 have r4: "stripPrefix '')'' (dropWhile isNumberChar r3) = Some rest"
    by (auto simp: matchCalc_def Let_def r2_def split: option.splits if_splits)
  have "length r2 \<le> length r"
    unfolding r2_def
    by (rule order_trans [OF length_dropWhile_le length_dropWhile_le])
  moreover have "length r3 \<le> length r2"
    using stripPrefix_length [OF r3] by simp
  moreover have "length rest < length r3"
    using stripPrefix_length [OF r4] length_dropWhile_le [of isNumberChar r3] by simp
  ultimately show ?thesis
    using stripPrefix_length [OF r] by simp
qed

function simplify :: "(string \<Rightarrow> string \<Rightarrow> string) \<Rightarrow> string \<Rightarrow> string" where
  \<comment> \<open>\<open>cssValue.replace(regex, ...)\<close> with the global flag: every match, left to right\<close>
  "simplify mul [] = []"
| "simplify mul (c # cs) =
     (case matchCalc (c # cs) of
        Some (a, unit, b, rest) \<Rightarrow> mul a b @ unit @ simplify mul rest
      | None \<Rightarrow> c # simplify mul cs)"
  by pat_completeness auto
termination
  by (relation "measure (\<lambda>(mul, s). length s)") (auto dest: matchCalc_shorter)

section \<open>The public functions\<close>

datatype class_names = ClassString string | ClassList "string list"

definition normalizeClassNames :: "class_names \<Rightarrow> string list" where
  \<comment> \<open>lines 219 and 220 of \<open>toObject\<close>\<close>
  "normalizeClassNames classNames =
     filter (\<lambda>c. c \<noteq> [])
       (map trim (case classNames of ClassString s \<Rightarrow> split s CHR '' '' | ClassList cs \<Rightarrow> cs))"

definition activeClasses :: "class_names \<Rightarrow> string list \<Rightarrow> bool \<Rightarrow> string list" where
  "activeClasses classNames state strict =
     filter (\<lambda>c. testVariants c state strict) (normalizeClassNames classNames)"

definition collapseActive :: "runtime \<Rightarrow> string list \<Rightarrow> style_object" where
  \<comment> \<open>the loop over \<open>allUtilityRules\<close>, from the empty style object\<close>
  "collapseActive rt active =
     fold (\<lambda>rule style.
             if includes_list active (cleanSelector (selectorText rule))
             then collapseRule rule style else style)
       (allUtilityRules rt) []"

fun simplifyEntries ::
  "(string \<Rightarrow> string \<Rightarrow> string) \<Rightarrow> (string \<times> jsval) list \<Rightarrow> style_object \<Rightarrow> error + style_object" where
  \<comment> \<open>the last loop of \<open>toObject\<close>\<close>
  "simplifyEntries mul [] style = Inr style"
| "simplifyEntries mul ((key, val) # es) style =
     (case val of
        Str v \<Rightarrow> simplifyEntries mul es (setProp key (Str (simplify mul v)) style)
      | _ \<Rightarrow> Inl TypeError)"

definition toObject ::
  "host \<Rightarrow> runtime \<Rightarrow> class_names \<Rightarrow> string list \<Rightarrow> bool \<Rightarrow> error + style_object" where
  "toObject h rt classNames state strict =
     (case substitute h rt (collapseActive rt (activeClasses classNames state strict)) of
        Inl e \<Rightarrow> Inl e
      | Inr style \<Rightarrow> simplifyEntries (numberProduct h) (entries style) style)"

definition showValue :: "jsval \<Rightarrow> string" where
  \<comment> \<open>a value inside a template literal\<close>
  "showValue v = (case v of Str s \<Rightarrow> s | Undefined \<Rightarrow> ''undefined'' | Null \<Rightarrow> ''null'')"

definition toCSS ::
  "host \<Rightarrow> runtime \<Rightarrow> class_names \<Rightarrow> string list \<Rightarrow> bool \<Rightarrow> error + string" where
  "toCSS h rt classNames state strict =
     (case toObject h rt classNames state strict of
        Inl e \<Rightarrow> Inl e
      | Inr style \<Rightarrow>
          Inr (join (map (\<lambda>(key, v). toKebabCase key @ '': '' @ showValue v) (entries style)) ''; ''
               @ '';''))"

section \<open>Notions used to state the properties\<close>

fun flatBrackets :: "nat \<Rightarrow> string \<Rightarrow> bool" where
  \<comment> \<open>the brackets of the text are balanced and not nested, \<open>depth\<close> of them being open\<close>
  "flatBrackets depth [] = (depth = 0)"
| "flatBrackets depth (c # cs) =
     (if c = CHR ''['' then depth = 0 \<and> flatBrackets 1 cs
      else if c = CHR '']'' then depth = 1 \<and> flatBrackets 0 cs
      else flatBrackets depth cs)"

fun splitOutsideAux :: "nat \<Rightarrow> string \<Rightarrow> string \<Rightarrow> string list" where
  \<comment> \<open>Follows the specification, not the source: the split at the colons that stand
      outside every bracket pair, \<open>depth\<close> counting the open brackets.\<close>
  "splitOutsideAux depth cur [] = [rev cur]"
| "splitOutsideAux depth cur (c # cs) =
     (if c = CHR '':'' \<and> depth = 0 then rev cur # splitOutsideAux depth [] cs
      else splitOutsideAux
             (if c = CHR ''['' then depth + 1 else if c = CHR '']'' then depth - 1 else depth)
             (c # cur) cs)"

definition splitOutsideBrackets :: "string \<Rightarrow> string list" where
  "splitOutsideBrackets className = splitOutsideAux 0 [] className"

fun ruleWrites :: "css_rule \<Rightarrow> (string \<times> jsval) list" where
  \<comment> \<open>the assignments \<open>target[key] = value\<close> that \<open>collapseRule\<close> performs, in order\<close>
  "ruleWrites (CSSStyleRule sel st rules) =
     concat (map ruleWrites rules) @ map parseDeclaration (declarationLines st)"
| "ruleWrites (CSSNestedDeclarations st) = map parseDeclaration (declarationLines st)"
| "ruleWrites (CSSGroupingRule rules) = concat (map ruleWrites rules)"
| "ruleWrites (CSSLayerBlockRule nm rules) = concat (map ruleWrites rules)"
| "ruleWrites (CSSPropertyRule nm inh iv) = []"
| "ruleWrites CSSOtherRule = []"


definition isActiveRule :: "string list \<Rightarrow> css_rule \<Rightarrow> bool" where
  \<comment> \<open>the test \<open>active.includes(name)\<close> of the loop of \<open>toObject\<close>\<close>
  "isActiveRule active rule = includes_list active (cleanSelector (selectorText rule))"



definition fullyResolved :: "runtime \<Rightarrow> style_object \<Rightarrow> bool" where
  \<comment> \<open>no reference left in a value resolves, in the style object or through \<open>getValue\<close>\<close>
  "fullyResolved rt style =
     list_all (\<lambda>(key, val).
        case val of
          Str v \<Rightarrow> list_all (\<lambda>nm. lookupValue rt style nm = Inr Undefined) (matchAllVar v)
        | _ \<Rightarrow> True) style"

text \<open>
  The substitution of one value as the specification words it, to compare with the
  source: one pass from left to right over the references of the value, each reference
  rewritten where it stands, and the text put in never looked at again.
\<close>

function specPass :: "(string \<Rightarrow> jsval) \<Rightarrow> string \<Rightarrow> string" where
  \<comment> \<open>Follows the specification, not the source: a reference that resolves to a string
      that is not empty is replaced by it (the comma absorbed), one that resolves to the
      empty string or to \<open>null\<close> is removed with the whitespace after it, one that does
      not resolve stays as it is.\<close>
  "specPass resolve [] = []"
| "specPass resolve (c # cs) =
     (case matchVarName (c # cs) of
        None \<Rightarrow> c # specPass resolve cs
      | Some (nm, rest) \<Rightarrow>
          (case resolve nm of
             Undefined \<Rightarrow> take (length (c # cs) - length rest) (c # cs) @ specPass resolve rest
           | Null \<Rightarrow> specPass resolve (dropWhile isWhiteSpace rest)
           | Str r \<Rightarrow>
               if r = [] then specPass resolve (dropWhile isWhiteSpace rest)
               else r @ specPass resolve rest))"
  by pat_completeness auto
termination
proof (relation "measure (\<lambda>(resolve, s). length s)", goal_cases)
  case 1
  show ?case by simp
next
  case (2 resolve c cs)
  then show ?case by simp
next
  case (3 resolve c cs x2 nm rest)
  then show ?case by (auto dest: matchVarName_shorter)
next
  case (4 resolve c cs x2 nm rest)
  then show ?case
    using length_dropWhile_le [of isWhiteSpace rest]
    by (auto dest!: matchVarName_shorter)
next
  case (5 resolve c cs x2 nm rest r)
  then show ?case
    using length_dropWhile_le [of isWhiteSpace rest]
    by (auto dest!: matchVarName_shorter)
next
  case (6 resolve c cs x2 nm rest r)
  then show ?case by (auto dest: matchVarName_shorter)
qed

definition substituteValueSpec :: "runtime \<Rightarrow> style_object \<Rightarrow> string \<Rightarrow> string" where
  \<comment> \<open>Follows the specification, not the source: the pass with the two tiers of the value
      namespace, and the result trimmed.\<close>
  "substituteValueSpec rt style v =
     trim (specPass (\<lambda>nm. case lookupValue rt style nm of Inr r \<Rightarrow> r | Inl e \<Rightarrow> Undefined) v)"

section \<open>A stylesheet to run the functions on\<close>

definition noProperties :: "string \<Rightarrow> css_style_declaration" where
  \<comment> \<open>a declaration block given by its text\<close>
  "noProperties text = \<lparr> cssText = text, properties = [] \<rparr>"

definition exampleSheet :: "css_rule list" where
  "exampleSheet =
     [CSSLayerBlockRule ''theme''
        [CSSStyleRule '':root, :host''
           \<lparr> cssText = ''--spacing: 0.25rem; --color-red-500: #ef4444;'',
             properties = [(''--spacing'', ''0.25rem''), (''--color-red-500'', ''#ef4444'')] \<rparr> []],
      CSSLayerBlockRule ''utilities''
        [CSSStyleRule ''.m-4'' (noProperties ''margin: calc(var(--spacing) * 4);'') [],
         CSSStyleRule ''.text-black'' (noProperties ''color: #000;'') [],
         CSSStyleRule (''.hover'' @ [backslash] @ '':text-red-500'') (noProperties [])
           [CSSStyleRule ''&:hover'' (noProperties [])
              [CSSGroupingRule
                 [CSSNestedDeclarations (noProperties ''color: var(--color-red-500);'')]]],
         CSSStyleRule ''.scale-x-150''
           (noProperties ''--tw-scale-x: 150%; scale: var(--tw-scale-x) var(--tw-scale-y);'') [],
         CSSStyleRule ''.accent''
           (noProperties ''--color-red-500: #f00; accent-color: var(--color-red-500);'') [],
         CSSStyleRule ''.outline-hidden''
           (noProperties ''outline: var(--tw-outline-style) var(--unknown);'') []],
      CSSPropertyRule ''--tw-scale-x'' False (Some ''1''),
      CSSPropertyRule ''--tw-scale-y'' False (Some ''1''),
      CSSPropertyRule ''--tw-outline-style'' False None,
      CSSPropertyRule ''--tw-inherited'' True (Some ''0'')]"

definition rescanSheet :: "css_rule list" where
  \<comment> \<open>a utility whose first declaration refers to its second one\<close>
  "rescanSheet =
     [CSSLayerBlockRule ''theme''
        [CSSStyleRule '':root, :host''
           \<lparr> cssText = ''--spacing: 0.25rem;'', properties = [(''--spacing'', ''0.25rem'')] \<rparr> []],
      CSSLayerBlockRule ''utilities''
        [CSSStyleRule ''.gap-margin''
           (noProperties ''margin: var(--gap) var(--spacing); --gap: var(--spacing);'') []]]"

definition semicolonSheet :: "css_rule list" where
  \<comment> \<open>a utility with a semicolon inside a quoted value: \<^verbatim>\<open>--tw-content: "a;b"\<close>\<close>
  "semicolonSheet =
     [CSSLayerBlockRule ''utilities''
        [CSSStyleRule ''.content-semi''
           (noProperties (''--tw-content: '' @ [CHR 0x22] @ ''a;b'' @ [CHR 0x22]
              @ ''; content: var(--tw-content);'')) []]]"

definition exampleRuntime :: runtime where
  "exampleRuntime = constructor exampleSheet"

definition exampleHost :: host where
  \<comment> \<open>a stand-in for the host in the examples: the product shows its two numerals, and
      no pattern is built from a name with a syntax character\<close>
  "exampleHost = \<lparr> numberProduct = (\<lambda>a b. a @ ''*'' @ b), replaceByPattern = (\<lambda>nm t v. None) \<rparr>"




section \<open>Variant matching and class names\<close>

lemma includes_list_set: "includes_list xs x = (x \<in> set xs)"
  by (induction xs) auto

lemma allVariantsActive_set: "allVariantsActive state vs = (\<forall>v\<in>set vs. v \<in> set state)"
  by (induction vs) (auto simp: includes_list_set)

lemma splitClassAux_nonempty: "splitClassAux cur s \<noteq> []"
  by (induction s arbitrary: cur) auto

lemma join_Cons: "ps \<noteq> [] \<Longrightarrow> join (p # ps) sep = p @ sep @ join ps sep"
  by (cases ps) auto

lemma join_splitClassAux: "join (splitClassAux cur s) '':'' = rev cur @ s"
  by (induction s arbitrary: cur) (auto simp: join_Cons splitClassAux_nonempty)

lemma pop_parts: "xs \<noteq> [] \<Longrightarrow> pop xs = (butlast xs, [last xs])"
  by (cases xs rule: rev_cases) (auto simp: pop_def)

text \<open>
  Claim C1. \<open>testVariants\<close> answers true exactly when every variant of the class name's
  chain is a member of the state and, in strict mode, the chain is as long as the state
  list. A class name without variants passes every state when the mode is not strict, and
  in strict mode passes the empty state only. (The state is a list in the source; its
  size is its length.)
\<close>

theorem testVariants_matches:
  "(testVariants className state strict =
      ((\<forall>v\<in>set (variants className). v \<in> set state)
       \<and> (strict \<longrightarrow> length (variants className) = length state)))
   \<and> (variants className = [] \<longrightarrow> testVariants className state False)
   \<and> (variants className = [] \<longrightarrow> testVariants className state True = (state = []))"
  by (auto simp: testVariants_def Let_def allVariantsActive_set)

theorem testVariants_matches_witness:
  "variants ''hover:m-4'' = [''hover'']
   \<and> testVariants ''hover:m-4'' [''hover''] False
   \<and> \<not> testVariants ''hover:m-4'' [] False
   \<and> \<not> testVariants ''hover:m-4'' [''hover'', ''focus''] True
   \<and> variants ''m-4'' = []
   \<and> testVariants ''m-4'' [''focus''] False
   \<and> \<not> testVariants ''m-4'' [''focus''] True
   \<and> testVariants ''m-4'' [] True"
  using testVariants_matches [of "''hover:m-4''" "[''hover'']" False]
    testVariants_matches [of "''hover:m-4''" "[]" False]
    testVariants_matches [of "''hover:m-4''" "[''hover'', ''focus'']" True]
    testVariants_matches [of "''m-4''" "[''focus'']"]
    testVariants_matches [of "''m-4''" "[]"]
  by (simp add: variants_def splitClassName_def pop_def)

lemma closesBracket_flat: "flatBrackets depth s \<Longrightarrow> closesBracket s = (depth = 1)"
  by (induction s arbitrary: depth) (auto split: if_splits)

lemma splitClassAux_flat:
  "flatBrackets depth s \<Longrightarrow> splitClassAux cur s = splitOutsideAux depth cur s"
proof (induction s arbitrary: depth cur)
  case Nil
  then show ?case by simp
next
  case (Cons c cs)
  show ?case
  proof (cases "c = CHR '':''")
    case True
    with Cons.prems have flat: "flatBrackets depth cs" by simp
    then have "closesBracket cs = (depth = 1)" by (rule closesBracket_flat)
    moreover from flat have "depth = 0 \<or> depth = 1"
      by (induction cs arbitrary: depth) (auto split: if_splits)
    ultimately show ?thesis using True Cons.IH [OF flat] by auto
  next
    case False
    with Cons show ?thesis by (auto split: if_splits)
  qed
qed

text \<open>
  The split of \<open>testVariants\<close> always yields at least one segment; the variants are all
  segments but the last, the base is the last one, and joining the variants followed by
  the base with a colon gives back the class name, whatever its brackets. Where the
  brackets of the class name are balanced and not nested, the segments are those of the
  split at the colons outside the bracket pairs.
\<close>

lemma className_roundtrip:
  "splitClassName className \<noteq> []
   \<and> variants className = butlast (splitClassName className)
   \<and> base className = [last (splitClassName className)]
   \<and> join (variants className @ base className) '':'' = className
   \<and> (flatBrackets 0 className \<longrightarrow> splitClassName className = splitOutsideBrackets className)"
proof -
  have ne: "splitClassName className \<noteq> []"
    by (simp add: splitClassName_def splitClassAux_nonempty)
  have v: "variants className = butlast (splitClassName className)"
    by (simp add: variants_def pop_parts [OF ne])
  have b: "base className = [last (splitClassName className)]"
    by (simp add: base_def pop_parts [OF ne])
  have "join (splitClassName className) '':'' = className"
    by (simp add: splitClassName_def join_splitClassAux)
  then have j: "join (variants className @ base className) '':'' = className"
    using ne by (simp add: v b)
  have f: "flatBrackets 0 className \<longrightarrow> splitClassName className = splitOutsideBrackets className"
    by (simp add: splitClassName_def splitOutsideBrackets_def splitClassAux_flat)
  from ne v b j f show ?thesis
    by (intro conjI)
qed

lemma className_roundtrip_example:
  "variants ''md:hover:bg-[url(a:b)]'' = [''md'', ''hover'']
   \<and> base ''md:hover:bg-[url(a:b)]'' = [''bg-[url(a:b)]'']
   \<and> join ([''md'', ''hover''] @ [''bg-[url(a:b)]'']) '':'' = ''md:hover:bg-[url(a:b)]''
   \<and> flatBrackets 0 ''md:hover:bg-[url(a:b)]''
   \<and> splitOutsideBrackets ''md:hover:bg-[url(a:b)]'' = [''md'', ''hover'', ''bg-[url(a:b)]'']"
proof -
  have flat: "flatBrackets 0 ''md:hover:bg-[url(a:b)]''"
    by simp
  have parts: "splitClassName ''md:hover:bg-[url(a:b)]'' = [''md'', ''hover'', ''bg-[url(a:b)]'']"
    by (simp add: splitClassName_def)
  note inst = className_roundtrip [of "''md:hover:bg-[url(a:b)]''"]
  have v: "variants ''md:hover:bg-[url(a:b)]'' = [''md'', ''hover'']"
    using inst by (simp add: parts)
  have b: "base ''md:hover:bg-[url(a:b)]'' = [''bg-[url(a:b)]'']"
    using inst by (simp add: parts)
  from inst have "join (variants ''md:hover:bg-[url(a:b)]'' @ base ''md:hover:bg-[url(a:b)]'') '':''
      = ''md:hover:bg-[url(a:b)]''"
    by blast
  then have j: "join ([''md'', ''hover''] @ [''bg-[url(a:b)]'']) '':'' = ''md:hover:bg-[url(a:b)]''"
    by (simp only: v b)
  have out: "splitOutsideBrackets ''md:hover:bg-[url(a:b)]'' = [''md'', ''hover'', ''bg-[url(a:b)]'']"
    using inst flat parts by simp
  from v b j flat out show ?thesis
    by (intro conjI)
qed

text \<open>
  Claim C9. The split is meant to cut at the colons that stand outside every bracket pair
  (the source: find all colons not between square brackets). Its pattern only looks
  ahead of a colon for a closing bracket with no opening bracket before it. So a colon
  inside a bracket pair that holds another pair is cut: the class name
  \<^verbatim>\<open>[&:not([open])]:hidden\<close> gives the three segments \<^verbatim>\<open>[&\<close>, \<^verbatim>\<open>not([open])]\<close> and
  \<^verbatim>\<open>hidden\<close>, where the colons outside the brackets give \<^verbatim>\<open>[&:not([open])]\<close> and
  \<^verbatim>\<open>hidden\<close>; its variants are then \<^verbatim>\<open>[&\<close> and \<^verbatim>\<open>not([open])]\<close>, and the class name
  fails the state that holds its one variant. And a colon that stands outside every pair
  but before a closing bracket without an opening one is not cut. Joining the segments
  gives back the class name all the same (\<open>className_roundtrip\<close>).
\<close>

theorem splitClassName_cuts_inside_brackets:
  "splitClassName ''[&:not([open])]:hidden'' = [''[&'', ''not([open])]'', ''hidden'']
   \<and> splitOutsideBrackets ''[&:not([open])]:hidden'' = [''[&:not([open])]'', ''hidden'']
   \<and> variants ''[&:not([open])]:hidden'' = [''[&'', ''not([open])]'']
   \<and> base ''[&:not([open])]:hidden'' = [''hidden'']
   \<and> \<not> testVariants ''[&:not([open])]:hidden'' [''[&:not([open])]''] False
   \<and> splitClassName ''a:b]'' = [''a:b]'']
   \<and> splitOutsideBrackets ''a:b]'' = [''a'', ''b]'']"
  by code_simp

section \<open>Selectors and utility rules\<close>

lemma removeBackslashes_filter: "removeBackslashes s = filter (\<lambda>c. c \<noteq> backslash) s"
  by (induction s) auto

lemma slice1_drop: "slice1 s = drop 1 s"
  by (cases s) (auto simp: slice1_def)

lemma findUtilityRuleIn_finds:
  "rule \<in> set rules \<Longrightarrow> cleanSelector (selectorText rule) = nm \<Longrightarrow>
     \<exists>found. findUtilityRuleIn rules nm = Some found \<and> found \<in> set rules
        \<and> cleanSelector (selectorText found) = nm"
  by (induction rules) auto

text \<open>
  Claim C10. \<open>cleanSelector\<close> removes every backslash of the selector, wherever it
  stands, and then drops the first character, whatever it is. So a utility rule whose
  selector is a dot followed by a class name with backslashes inserted is found by
  \<open>findUtilityRule\<close> under the plain class name: the rule returned is a utility rule
  whose cleaned selector is that name.
\<close>

theorem cleanSelector_unescapes:
  "cleanSelector s = drop 1 (filter (\<lambda>c. c \<noteq> backslash) s)
   \<and> (\<forall>rule\<in>set (allUtilityRules rt). \<forall>escaped.
         selectorText rule = CHR ''.'' # escaped \<and> filter (\<lambda>c. c \<noteq> backslash) escaped = nm
         \<longrightarrow> (\<exists>found. findUtilityRule rt nm = Some found
                \<and> found \<in> set (allUtilityRules rt)
                \<and> cleanSelector (selectorText found) = nm))"
proof -
  have clean: "cleanSelector t = drop 1 (filter (\<lambda>c. c \<noteq> backslash) t)" for t
    by (simp add: cleanSelector_def removeBackslashes_filter slice1_drop)
  have "\<exists>found. findUtilityRule rt nm = Some found \<and> found \<in> set (allUtilityRules rt)
          \<and> cleanSelector (selectorText found) = nm"
    if "rule \<in> set (allUtilityRules rt)" "selectorText rule = CHR ''.'' # escaped"
      "filter (\<lambda>c. c \<noteq> backslash) escaped = nm" for rule escaped
  proof -
    have "cleanSelector (selectorText rule) = nm"
      using that(2,3) by (simp add: clean backslash_def)
    with that(1) show ?thesis
      unfolding findUtilityRule_def by (rule findUtilityRuleIn_finds)
  qed
  with clean show ?thesis by blast
qed

theorem cleanSelector_unescapes_witness:
  "cleanSelector (''.hover'' @ [backslash] @ '':m-'' @ [backslash] @ ''[10px'' @ [backslash] @ '']'')
     = ''hover:m-[10px]''
   \<and> cleanSelector (backslash # ''ab'' @ [backslash]) = ''b''
   \<and> (\<exists>found. findUtilityRule exampleRuntime ''hover:text-red-500'' = Some found
         \<and> found \<in> set (allUtilityRules exampleRuntime)
         \<and> cleanSelector (selectorText found) = ''hover:text-red-500'')"
proof -
  let ?escaped = "''hover'' @ [backslash] @ '':text-red-500''"
  let ?rule = "CSSStyleRule (''.hover'' @ [backslash] @ '':text-red-500'') (noProperties [])
           [CSSStyleRule ''&:hover'' (noProperties [])
              [CSSGroupingRule
                 [CSSNestedDeclarations (noProperties ''color: var(--color-red-500);'')]]]"
  have mem: "?rule \<in> set (allUtilityRules exampleRuntime)"
    by code_simp
  have sel: "selectorText ?rule = CHR ''.'' # ?escaped"
    by simp
  have esc: "filter (\<lambda>c. c \<noteq> backslash) ?escaped = ''hover:text-red-500''"
    by (simp add: backslash_def)
  have found: "\<exists>found. findUtilityRule exampleRuntime ''hover:text-red-500'' = Some found
         \<and> found \<in> set (allUtilityRules exampleRuntime)
         \<and> cleanSelector (selectorText found) = ''hover:text-red-500''"
    using cleanSelector_unescapes [of "[]" exampleRuntime "''hover:text-red-500''"] mem sel esc
    by blast
  have "cleanSelector (''.hover'' @ [backslash] @ '':m-'' @ [backslash] @ ''[10px'' @ [backslash] @ '']'')
     = ''hover:m-[10px]''"
    using cleanSelector_unescapes
      [of "''.hover'' @ [backslash] @ '':m-'' @ [backslash] @ ''[10px'' @ [backslash] @ '']''"
        exampleRuntime "[]"]
    by (simp add: backslash_def)
  moreover have "cleanSelector (backslash # ''ab'' @ [backslash]) = ''b''"
    using cleanSelector_unescapes [of "backslash # ''ab'' @ [backslash]" exampleRuntime "[]"]
    by (simp add: backslash_def)
  ultimately show ?thesis using found by simp
qed

section \<open>Raw variable lookup\<close>

lemma findPropertyRuleIn_Some:
  "findPropertyRuleIn rules nm = Some r \<Longrightarrow>
     r \<in> set rules \<and> (\<exists>inh iv. r = CSSPropertyRule nm inh iv)"
  by (induction rules) (auto split: css_rule.splits if_splits)

text \<open>
  Claim C7. \<open>getValue\<close> raises exactly when the name does not start with two hyphens,
  and then it raises \<open>InvalidArgument\<close>. The function reads the runtime and writes
  nothing: its embedding takes the runtime and gives no runtime back, so a call that
  raises leaves everything as it was. For a name that starts with two hyphens the result
  is the theme declaration's value when there is a theme declaration and the value is
  not empty; otherwise the initial value (possibly \<open>null\<close>) of the registered property
  found under exactly that name when it does not inherit; otherwise \<open>undefined\<close>.
\<close>

theorem getValue_contract:
  "((\<exists>e. getValue rt nm = Inl e) = (\<not> startsWith nm ''--''))
   \<and> (\<not> startsWith nm ''--'' \<longrightarrow> getValue rt nm = Inl InvalidArgument)
   \<and> (startsWith nm ''--'' \<longrightarrow>
        (\<forall>decl. themeDeclaration rt = Some decl \<and> getPropertyValue decl nm \<noteq> []
           \<longrightarrow> getValue rt nm = Inr (Str (getPropertyValue decl nm)))
        \<and> (themeDeclaration rt = None
             \<or> (\<exists>decl. themeDeclaration rt = Some decl \<and> getPropertyValue decl nm = [])
           \<longrightarrow> (\<forall>n iv. findPropertyRule rt nm = Some (CSSPropertyRule n False iv)
                  \<longrightarrow> n = nm
                      \<and> getValue rt nm = Inr (case iv of None \<Rightarrow> Null | Some v \<Rightarrow> Str v))
               \<and> (\<forall>n iv. findPropertyRule rt nm = Some (CSSPropertyRule n True iv)
                  \<longrightarrow> getValue rt nm = Inr Undefined)
               \<and> (findPropertyRule rt nm = None \<longrightarrow> getValue rt nm = Inr Undefined)))"
  unfolding findPropertyRule_def getValue_def
  by (auto split: option.splits css_rule.splits dest: findPropertyRuleIn_Some)

theorem getValue_contract_witness:
  "getValue exampleRuntime ''color'' = Inl InvalidArgument
   \<and> getValue exampleRuntime ''-x'' = Inl InvalidArgument
   \<and> getValue exampleRuntime ''--spacing'' = Inr (Str ''0.25rem'')
   \<and> getValue exampleRuntime ''--tw-scale-x'' = Inr (Str ''1'')
   \<and> getValue exampleRuntime ''--tw-outline-style'' = Inr Null
   \<and> getValue exampleRuntime ''--tw-inherited'' = Inr Undefined
   \<and> getValue exampleRuntime ''--unknown'' = Inr Undefined"
proof -
  have "\<not> startsWith ''color'' ''--''" and "\<not> startsWith ''-x'' ''--''"
    by (simp_all add: startsWith_def)
  then have "getValue exampleRuntime ''color'' = Inl InvalidArgument"
    and "getValue exampleRuntime ''-x'' = Inl InvalidArgument"
    using getValue_contract [of exampleRuntime "''color''"]
      getValue_contract [of exampleRuntime "''-x''"] by simp_all
  moreover have "getValue exampleRuntime ''--spacing'' = Inr (Str ''0.25rem'')"
    "getValue exampleRuntime ''--tw-scale-x'' = Inr (Str ''1'')"
    "getValue exampleRuntime ''--tw-outline-style'' = Inr Null"
    "getValue exampleRuntime ''--tw-inherited'' = Inr Undefined"
    "getValue exampleRuntime ''--unknown'' = Inr Undefined"
    by code_simp+
  ultimately show ?thesis by simp
qed

section \<open>Collapsing in stylesheet order\<close>

lemma getProp_setProp_same: "k \<noteq> ''__proto__'' \<Longrightarrow> getProp (setProp k v t) k = v"
  by (simp add: getProp_def setProp_def update_conv')

lemma getProp_setProp_other: "k' \<noteq> k \<Longrightarrow> getProp (setProp k' v t) k = getProp t k"
  by (simp add: getProp_def setProp_def update_conv')

lemma fold_assignDeclaration:
  "fold assignDeclaration ps t = fold (\<lambda>(k, v). setProp k v) (map parseDeclaration ps) t"
  by (induction ps arbitrary: t) (auto simp: assignDeclaration_def split: prod.splits)

lemma fold_concat_writes:
  "(\<And>r t. r \<in> set rs \<Longrightarrow> f r t = fold g (h r) t) \<Longrightarrow>
     fold f rs t = fold g (concat (map h rs)) t"
  by (induction rs arbitrary: t) auto

lemma collapseRule_writes:
  "collapseRule r t = fold (\<lambda>(k, v). setProp k v) (ruleWrites r) t"
proof (induction r t rule: collapseRule.induct)
  case (1 sel st rules target)
  have "fold collapseRule rules target
          = fold (\<lambda>(k, v). setProp k v) (concat (map ruleWrites rules)) target"
    by (rule fold_concat_writes) (rule "1.IH")
  then show ?case by (simp add: fold_assignDeclaration)
next
  case (2 st target)
  then show ?case by (simp add: fold_assignDeclaration)
next
  case (3 rules target)
  show ?case using fold_concat_writes [of rules collapseRule "\<lambda>(k, v). setProp k v" ruleWrites target] "3.IH"
    by simp
next
  case (4 nm rules target)
  show ?case using fold_concat_writes [of rules collapseRule "\<lambda>(k, v). setProp k v" ruleWrites target] "4.IH"
    by simp
qed simp_all



lemma collapseActive_writes:
  "fold (\<lambda>rule style. if isActiveRule active rule then collapseRule rule style else style) rules t
     = fold (\<lambda>(k, v). setProp k v) (concat (map ruleWrites (filter (isActiveRule active) rules))) t"
  by (induction rules arbitrary: t) (auto simp: collapseRule_writes)

section \<open>Internal properties are removed\<close>

lemma set_entries: "set (entries style) = set style"
  by (auto simp: entries_def)

lemma set_keys: "set (keys style) = fst ` set style"
  by (simp add: keys_def set_entries)

lemma keys_setProp_present:
  "key \<in> fst ` set style \<Longrightarrow> map fst (setProp key v style) = map fst style"
  by (auto simp: setProp_def update_keys)

lemma keyset_setProp_present:
  "key \<in> fst ` set style \<Longrightarrow> fst ` set (setProp key v style) = fst ` set style"
  using keys_setProp_present [of key style v] by (metis list.set_map)

lemma substituteEntries_keys:
  "substituteEntries h rt es style = Inr style' \<Longrightarrow> fst ` set es \<subseteq> fst ` set style \<Longrightarrow>
     map fst style' = map fst style"
proof (induction es arbitrary: style)
  case Nil
  then show ?case by simp
next
  case (Cons e es)
  obtain key val where e: "e = (key, val)" by (cases e)
  from Cons.prems(1) e obtain v v' where
    val: "val = Str v" and
    refs: "substituteRefs h rt style (matchAllVar v) v = Inr v'" and
    rest: "substituteEntries h rt es (setProp key (Str (trim v')) style) = Inr style'"
    by (auto split: jsval.splits sum.splits)
  have key: "key \<in> fst ` set style"
    using Cons.prems(2) e by auto
  have same: "map fst (setProp key (Str (trim v')) style) = map fst style"
    using key by (rule keys_setProp_present)
  have "fst ` set es \<subseteq> fst ` set (setProp key (Str (trim v')) style)"
    using Cons.prems(2) by (simp add: keyset_setProp_present [OF key])
  from Cons.IH [OF rest this] same show ?case by simp
qed

lemma removeInternal_fold_filter:
  "fold (\<lambda>key st. if nonInheriting rt key then deleteProp key st else st) ks style
     = filter (\<lambda>p. \<not> (nonInheriting rt (fst p) \<and> fst p \<in> set ks)) style"
proof (induction ks arbitrary: style)
  case Nil
  then show ?case by simp
next
  case (Cons k ks)
  show ?case
    by (auto simp: Cons.IH deleteProp_def AList.delete_eq intro!: filter_cong)
qed

lemma removeInternal_filter:
  "removeInternal rt style = filter (\<lambda>p. \<not> nonInheriting rt (fst p)) style"
  unfolding removeInternal_def removeInternal_fold_filter
  by (rule filter_cong) (auto simp: set_keys rev_image_eqI)

lemma simplifyEntries_keys:
  "simplifyEntries mul es style = Inr style' \<Longrightarrow> fst ` set es \<subseteq> fst ` set style \<Longrightarrow>
     map fst style' = map fst style"
proof (induction es arbitrary: style)
  case Nil
  then show ?case by simp
next
  case (Cons e es)
  obtain key val where e: "e = (key, val)" by (cases e)
  from Cons.prems(1) e obtain v where
    val: "val = Str v" and
    rest: "simplifyEntries mul es (setProp key (Str (simplify mul v)) style) = Inr style'"
    by (auto split: jsval.splits)
  have key: "key \<in> fst ` set style"
    using Cons.prems(2) e by auto
  have same: "map fst (setProp key (Str (simplify mul v)) style) = map fst style"
    using key by (rule keys_setProp_present)
  have "fst ` set es \<subseteq> fst ` set (setProp key (Str (simplify mul v)) style)"
    using Cons.prems(2) by (simp add: keyset_setProp_present [OF key])
  from Cons.IH [OF rest this] same show ?case by simp
qed

lemma substitute_keys:
  assumes "substitute h rt style = Inr style'"
  shows "map fst style' = filter (\<lambda>k. \<not> nonInheriting rt k) (map fst style)"
proof -
  from assms obtain mid where
    mid: "substituteEntries h rt (entries style) style = Inr mid" and
    out: "style' = removeInternal rt mid"
    by (auto simp: substitute_def split: sum.splits)
  have "map fst mid = map fst style"
    using mid by (rule substituteEntries_keys) (simp add: set_entries)
  moreover have "map fst (removeInternal rt mid) = filter (\<lambda>k. \<not> nonInheriting rt k) (map fst mid)"
    by (simp add: removeInternal_filter filter_map comp_def)
  ultimately show ?thesis using out by simp
qed

lemma toObject_keys:
  assumes "toObject h rt classNames state strict = Inr out"
  shows "map fst out = filter (\<lambda>k. \<not> nonInheriting rt k)
           (map fst (collapseActive rt (activeClasses classNames state strict)))"
proof -
  from assms obtain style where
    sub: "substitute h rt (collapseActive rt (activeClasses classNames state strict)) = Inr style" and
    simp: "simplifyEntries (numberProduct h) (entries style) style = Inr out"
    by (auto simp: toObject_def split: sum.splits)
  have "map fst out = map fst style"
    using simp by (rule simplifyEntries_keys) (simp add: set_entries)
  with substitute_keys [OF sub] show ?thesis by simp
qed


lemma getProp_absent: "k \<notin> fst ` set style \<Longrightarrow> getProp style k = Undefined"
proof -
  assume "k \<notin> fst ` set style"
  then have "map_of style k = None"
    by (simp add: map_of_eq_None_iff)
  then show ?thesis
    by (simp add: getProp_def)
qed

text \<open>
  Claim C3. When \<open>substitute\<close> returns, a key for which \<open>findPropertyRule\<close> finds a
  registered property that does not inherit is no key of the style object any more: it
  is deleted, a read gives \<open>undefined\<close>, not a blank value. Every other key of the style
  object is kept, in particular a theme variable, for which no property is registered.
  The last loop of \<open>toObject\<close> keeps the keys, so the same holds between the collapsed
  style object and the result of \<open>toObject\<close>.
\<close>

theorem internal_keys_removed:
  "(substitute h rt style = Inr style' \<longrightarrow>
      (\<forall>k. nonInheriting rt k \<longrightarrow> k \<notin> set (keys style') \<and> getProp style' k = Undefined)
      \<and> (\<forall>k\<in>set (keys style). \<not> nonInheriting rt k \<longrightarrow> k \<in> set (keys style')))
   \<and> (toObject h rt classNames state strict = Inr out \<longrightarrow>
      (\<forall>k. nonInheriting rt k \<longrightarrow> k \<notin> set (keys out) \<and> getProp out k = Undefined)
      \<and> (\<forall>k\<in>set (keys (collapseActive rt (activeClasses classNames state strict))).
            \<not> nonInheriting rt k \<longrightarrow> k \<in> set (keys out)))
   \<and> (nonInheriting rt key = (\<exists>n iv. findPropertyRule rt key = Some (CSSPropertyRule n False iv)))"
proof -
  have filtered: "(\<forall>k. nonInheriting rt k \<longrightarrow> k \<notin> set (keys b) \<and> getProp b k = Undefined)
      \<and> (\<forall>k\<in>set (keys a). \<not> nonInheriting rt k \<longrightarrow> k \<in> set (keys b))"
    if "map fst b = filter (\<lambda>k. \<not> nonInheriting rt k) (map fst a)" for a b :: style_object
  proof -
    have "fst ` set b = {k \<in> fst ` set a. \<not> nonInheriting rt k}"
      using arg_cong [OF that, of set] by simp
    then show ?thesis
      by (auto simp: set_keys getProp_absent)
  qed
  have "nonInheriting rt key = (\<exists>n iv. findPropertyRule rt key = Some (CSSPropertyRule n False iv))"
    by (auto simp: nonInheriting_def split: option.splits css_rule.splits)
  then show ?thesis
    using filtered [OF substitute_keys] filtered [OF toObject_keys] by blast
qed

theorem internal_keys_removed_witness:
  "toObject exampleHost exampleRuntime (ClassString ''scale-x-150 accent'') [] False
     = Inr [(''scale'', Str ''150% 1''), (''--color-red-500'', Str ''#f00''),
            (''accentColor'', Str ''#f00'')]
   \<and> nonInheriting exampleRuntime ''--tw-scale-x''
   \<and> ''--tw-scale-x'' \<in> set (keys (collapseActive exampleRuntime
          (activeClasses (ClassString ''scale-x-150 accent'') [] False)))
   \<and> ''--tw-scale-x'' \<notin> set (keys [(''scale'', Str ''150% 1''), (''--color-red-500'', Str ''#f00''),
            (''accentColor'', Str ''#f00'')])
   \<and> findPropertyRule exampleRuntime ''--color-red-500'' = None
   \<and> ''--color-red-500'' \<in> set (keys [(''scale'', Str ''150% 1''), (''--color-red-500'', Str ''#f00''),
            (''accentColor'', Str ''#f00'')])"
proof -
  let ?out = "[(''scale'', Str ''150% 1''), (''--color-red-500'', Str ''#f00''),
            (''accentColor'', Str ''#f00'')]"
  let ?collapsed = "collapseActive exampleRuntime
          (activeClasses (ClassString ''scale-x-150 accent'') [] False)"
  have run: "toObject exampleHost exampleRuntime (ClassString ''scale-x-150 accent'') [] False
      = Inr ?out"
    by code_simp
  have internal: "nonInheriting exampleRuntime ''--tw-scale-x''"
    by code_simp
  have theme: "\<not> nonInheriting exampleRuntime ''--color-red-500''"
    and none: "findPropertyRule exampleRuntime ''--color-red-500'' = None"
    by code_simp+
  have before: "''--tw-scale-x'' \<in> set (keys ?collapsed)"
    and kept: "''--color-red-500'' \<in> set (keys ?collapsed)"
    by code_simp+
  note inst = internal_keys_removed
    [where h = exampleHost and rt = exampleRuntime and style = "[]" and style' = "[]"
      and classNames = "ClassString ''scale-x-150 accent''" and state = "[]" and strict = False
      and out = ?out and key = "[]"]
  from inst run internal have "''--tw-scale-x'' \<notin> set (keys ?out)"
    by blast
  moreover from inst run theme kept have "''--color-red-500'' \<in> set (keys ?out)"
    by blast
  ultimately show ?thesis
    using run internal before none by simp
qed

section \<open>Substituting twice\<close>

lemma substituteRefs_unresolved:
  "\<forall>n\<in>set names. lookupValue rt style n = Inr Undefined \<Longrightarrow>
     substituteRefs h rt style names v = Inr v"
  by (induction names) auto

lemma setProp_same: "map_of style k = Some v \<Longrightarrow> setProp k v style = style"
  by (simp add: setProp_def update_triv)

lemma substituteEntries_fixed:
  "\<forall>(k, val)\<in>set es. map_of style k = Some val
      \<and> (\<exists>w. val = Str w \<and> trim w = w
            \<and> (\<forall>n\<in>set (matchAllVar w). lookupValue rt style n = Inr Undefined)) \<Longrightarrow>
     substituteEntries h rt es style = Inr style"
proof (induction es)
  case Nil
  then show ?case by simp
next
  case (Cons e es)
  obtain k val where e: "e = (k, val)" by (cases e)
  from Cons.prems e obtain w where
    m: "map_of style k = Some (Str w)" and val: "val = Str w" and t: "trim w = w" and
    u: "\<forall>n\<in>set (matchAllVar w). lookupValue rt style n = Inr Undefined"
    by auto
  have "substituteEntries h rt es style = Inr style"
    using Cons by simp
  then show ?case
    by (simp add: e val substituteRefs_unresolved [OF u] t setProp_same [OF m])
qed

lemma dropWhile_hd: "xs \<noteq> [] \<Longrightarrow> \<not> P (hd xs) \<Longrightarrow> dropWhile P xs = xs"
  by (cases xs) auto

lemma trim_trim: "trim (trim w) = trim w"
proof -
  define a where "a = dropWhile isWhiteSpace w"
  define b where "b = rev (dropWhile isWhiteSpace (rev a))"
  have tw: "trim w = b"
    by (simp add: trim_def a_def b_def)
  have ha: "a \<noteq> [] \<Longrightarrow> \<not> isWhiteSpace (hd a)"
    unfolding a_def by (rule hd_dropWhile)
  have front: "dropWhile isWhiteSpace b = b"
  proof (cases "b = []")
    case True
    then show ?thesis by simp
  next
    case False
    have "rev b = dropWhile isWhiteSpace (rev a)"
      by (simp add: b_def)
    then have "rev a = takeWhile isWhiteSpace (rev a) @ rev b"
      by simp
    then have "a = b @ rev (takeWhile isWhiteSpace (rev a))"
      by (metis rev_append rev_rev_ident)
    with False have "hd a = hd b" and "a \<noteq> []"
      by (metis hd_append2, metis append_is_Nil_conv)
    with ha False show ?thesis
      by (simp add: dropWhile_hd)
  qed
  have rear: "dropWhile isWhiteSpace (rev b) = rev b"
    by (simp add: b_def)
  have "trim b = b"
    by (simp add: trim_def front rear)
  then show ?thesis
    by (simp add: tw)
qed

lemma substituteEntries_values:
  "substituteEntries h rt es style = Inr style' \<Longrightarrow> fst ` set es \<subseteq> fst ` set style \<Longrightarrow>
     (\<forall>k\<in>fst ` set es. \<exists>w. map_of style' k = Some (Str (trim w)))
     \<and> (\<forall>k. k \<notin> fst ` set es \<longrightarrow> map_of style' k = map_of style k)"
proof (induction es arbitrary: style)
  case Nil
  then show ?case by simp
next
  case (Cons e es)
  obtain key val where e: "e = (key, val)" by (cases e)
  from Cons.prems(1) e obtain v v' where
    val: "val = Str v" and
    refs: "substituteRefs h rt style (matchAllVar v) v = Inr v'" and
    rest: "substituteEntries h rt es (setProp key (Str (trim v')) style) = Inr style'"
    by (auto split: jsval.splits sum.splits)
  let ?s2 = "setProp key (Str (trim v')) style"
  have key: "key \<in> fst ` set style"
    using Cons.prems(2) e by auto
  have sub: "fst ` set es \<subseteq> fst ` set ?s2"
    using Cons.prems(2) by (simp add: keyset_setProp_present [OF key])
  note IH = Cons.IH [OF rest sub]
  have present: "map_of style key \<noteq> None"
    using key by (simp add: map_of_eq_None_iff)
  then have "?s2 = AList.update key (Str (trim v')) style"
    unfolding setProp_def by (simp only: simp_thms if_False)
  then have s2: "map_of ?s2 = (map_of style)(key \<mapsto> Str (trim v'))"
    by (simp add: update_conv')
  have "\<exists>w. map_of style' key = Some (Str (trim w))"
  proof (cases "key \<in> fst ` set es")
    case True
    with IH show ?thesis by blast
  next
    case False
    with IH have "map_of style' key = map_of ?s2 key" by blast
    then show ?thesis by (auto simp: s2)
  qed
  moreover have "map_of style' k = map_of style k" if "k \<notin> fst ` set (e # es)" for k
  proof -
    from that e have "k \<noteq> key" and "k \<notin> fst ` set es" by auto
    with IH have "map_of style' k = map_of ?s2 k" by blast
    with \<open>k \<noteq> key\<close> show ?thesis by (simp add: s2)
  qed
  ultimately show ?case using IH e by auto
qed

text \<open>
  Claim C4. Let \<open>substitute\<close> return the style object \<open>style1\<close>, and let no reference
  left in a value of \<open>style1\<close> resolve, in \<open>style1\<close> or through \<open>getValue\<close>. Then
  \<open>substitute\<close> applied to \<open>style1\<close> returns \<open>style1\<close>: the same keys in the same order
  with the same values. (The keys of a style object are distinct.)
\<close>

theorem substitute_idempotent:
  assumes d: "distinct (map fst style0)"
    and s: "substitute h rt style0 = Inr style1"
    and f: "fullyResolved rt style1"
  shows "substitute h rt style1 = Inr style1"
proof -
  from s obtain mid where
    mid: "substituteEntries h rt (entries style0) style0 = Inr mid" and
    out: "style1 = removeInternal rt mid"
    by (auto simp: substitute_def split: sum.splits)
  have keys_mid: "map fst mid = map fst style0"
    using mid by (rule substituteEntries_keys) (simp add: set_entries)
  have d_mid: "distinct (map fst mid)"
    using d keys_mid by simp
  have s1: "style1 = filter (\<lambda>p. \<not> nonInheriting rt (fst p)) mid"
    using out by (simp add: removeInternal_filter)
  have d1: "distinct (map fst style1)"
    unfolding s1 using d_mid by (rule distinct_map_filter)
  have vals: "\<forall>k\<in>fst ` set (entries style0). \<exists>w. map_of mid k = Some (Str (trim w))"
    using substituteEntries_values [OF mid] by (simp add: set_entries)
  have entry: "map_of style1 k = Some val
      \<and> (\<exists>w. val = Str w \<and> trim w = w
            \<and> (\<forall>n\<in>set (matchAllVar w). lookupValue rt style1 n = Inr Undefined))"
    if kv: "(k, val) \<in> set style1" for k val
  proof -
    have m1: "map_of style1 k = Some val"
      using d1 kv by simp
    from kv have in_mid: "(k, val) \<in> set mid"
      by (simp add: s1)
    then have "map_of mid k = Some val"
      using d_mid by simp
    moreover have "k \<in> fst ` set (entries style0)"
      using in_mid keys_mid by (metis set_entries list.set_map rev_image_eqI fst_conv)
    ultimately obtain w where w: "val = Str (trim w)"
      using vals by auto
    have "\<forall>n\<in>set (matchAllVar (trim w)). lookupValue rt style1 n = Inr Undefined"
      using f kv w by (auto simp: fullyResolved_def list_all_iff)
    with m1 w show ?thesis
      by (simp add: trim_trim)
  qed
  have "substituteEntries h rt (entries style1) style1 = Inr style1"
    by (rule substituteEntries_fixed) (use entry in \<open>auto simp: set_entries\<close>)
  moreover have "removeInternal rt style1 = style1"
    by (simp add: removeInternal_filter) (simp add: s1)
  ultimately show ?thesis
    by (simp add: substitute_def)
qed


theorem substitute_idempotent_witness:
  "substitute exampleHost exampleRuntime
      [(''margin'', Str ''calc(var(--spacing) * 4)''),
       (''--tw-scale-x'', Str ''150%''),
       (''outline'', Str '' var(--tw-outline-style) var(--unknown) '')]
     = Inr [(''margin'', Str ''calc(0.25rem * 4)''), (''outline'', Str ''var(--unknown)'')]
   \<and> fullyResolved exampleRuntime
        [(''margin'', Str ''calc(0.25rem * 4)''), (''outline'', Str ''var(--unknown)'')]
   \<and> substitute exampleHost exampleRuntime
        [(''margin'', Str ''calc(0.25rem * 4)''), (''outline'', Str ''var(--unknown)'')]
     = Inr [(''margin'', Str ''calc(0.25rem * 4)''), (''outline'', Str ''var(--unknown)'')]"
proof -
  let ?style0 = "[(''margin'', Str ''calc(var(--spacing) * 4)''),
       (''--tw-scale-x'', Str ''150%''),
       (''outline'', Str '' var(--tw-outline-style) var(--unknown) '')]"
  let ?style1 = "[(''margin'', Str ''calc(0.25rem * 4)''), (''outline'', Str ''var(--unknown)'')]"
  have d: "distinct (map fst ?style0)"
    by simp
  have first: "substitute exampleHost exampleRuntime ?style0 = Inr ?style1"
    by code_simp
  have resolved: "fullyResolved exampleRuntime ?style1"
    by code_simp
  from substitute_idempotent [OF d first resolved] first resolved show ?thesis
    by simp
qed

section \<open>Substitution searches the value again\<close>

text \<open>
  Claim C2. The claim describes one pass in which each reference found is rewritten where
  it stands and the text put in is not looked at again. The source finds the references
  in the original value, but rewrites with \<open>value.replace\<close> and a pattern that is not
  global: each time the first text of the current value that matches the name is
  replaced, and that can be text put in by an earlier replacement. With
  \<^verbatim>\<open>margin: var(--gap) var(--spacing); --gap: var(--spacing)\<close> and the theme value
  \<open>0.25rem\<close> for \<open>--spacing\<close>, the first replacement gives
  \<^verbatim>\<open>var(--spacing) var(--spacing)\<close>; the second one rewrites the text just put in and
  leaves the reference of the original value, which resolves, as it is. The pass of the
  claim gives \<^verbatim>\<open>var(--spacing) 0.25rem\<close>.
\<close>

theorem substitute_rewrites_inserted_text:
  "collapseActive (constructor rescanSheet) [''gap-margin'']
     = [(''margin'', Str ''var(--gap) var(--spacing)''), (''--gap'', Str ''var(--spacing)'')]
   \<and> substitute h (constructor rescanSheet)
        [(''margin'', Str ''var(--gap) var(--spacing)''), (''--gap'', Str ''var(--spacing)'')]
     = Inr [(''margin'', Str ''0.25rem var(--spacing)''), (''--gap'', Str ''0.25rem'')]
   \<and> toObject h (constructor rescanSheet) (ClassString ''gap-margin'') [] False
     = Inr [(''margin'', Str ''0.25rem var(--spacing)''), (''--gap'', Str ''0.25rem'')]
   \<and> substituteValueSpec (constructor rescanSheet)
        [(''margin'', Str ''var(--gap) var(--spacing)''), (''--gap'', Str ''var(--spacing)'')]
        ''var(--gap) var(--spacing)''
     = ''var(--spacing) 0.25rem''"
  by code_simp

section \<open>Errors of the public functions\<close>

lemma matchVarName_hyphens: "matchVarName s = Some (nm, rest) \<Longrightarrow> startsWith nm ''--''"
  by (auto simp: matchVarName_def Let_def startsWith_def split: option.splits if_splits)

lemma matchAllVar_hyphens: "nm \<in> set (matchAllVar s) \<Longrightarrow> startsWith nm ''--''"
  by (induction s rule: matchAllVar.induct)
    (auto split: option.splits dest: matchVarName_hyphens)

lemma getValue_returns: "startsWith nm ''--'' \<Longrightarrow> \<exists>r. getValue rt nm = Inr r"
  by (auto simp: getValue_def split: option.splits css_rule.splits)

lemma lookupValue_returns: "startsWith nm ''--'' \<Longrightarrow> \<exists>r. lookupValue rt style nm = Inr r"
  using getValue_returns [of nm rt] by (auto simp: lookupValue_def split: jsval.splits)

lemma substituteRefs_error:
  "substituteRefs h rt style names v = Inl e \<Longrightarrow> \<forall>nm\<in>set names. startsWith nm ''--'' \<Longrightarrow>
     e = SyntaxError"
proof (induction names arbitrary: v)
  case Nil
  then show ?case by simp
next
  case (Cons nm names)
  from Cons.prems(2) obtain r where r: "lookupValue rt style nm = Inr r"
    using lookupValue_returns [of nm rt style] by auto
  with Cons show ?case
    by (cases r) (auto split: option.splits)
qed

lemma substituteEntries_error:
  "substituteEntries h rt es style = Inl e \<Longrightarrow> e = TypeError \<or> e = SyntaxError"
proof (induction es arbitrary: style)
  case Nil
  then show ?case by simp
next
  case (Cons entry es)
  obtain key val where entry: "entry = (key, val)" by (cases entry)
  show ?case
  proof (cases val)
    case (Str v)
    show ?thesis
    proof (cases "substituteRefs h rt style (matchAllVar v) v")
      case (Inl e')
      with Cons.prems entry Str have "e = e'" by simp
      moreover have "e' = SyntaxError"
        using Inl by (rule substituteRefs_error) (simp add: matchAllVar_hyphens)
      ultimately show ?thesis by simp
    next
      case (Inr v')
      with Cons entry Str show ?thesis by simp
    qed
  qed (use Cons.prems entry in auto)
qed

lemma simplifyEntries_error: "simplifyEntries mul es style = Inl e \<Longrightarrow> e = TypeError"
proof (induction es arbitrary: style)
  case Nil
  then show ?case by simp
next
  case (Cons entry es)
  obtain key val where "entry = (key, val)" by (cases entry)
  with Cons show ?case by (cases val) auto
qed

lemma toObject_error:
  "toObject h rt classNames state strict = Inl e \<Longrightarrow> e = TypeError \<or> e = SyntaxError"
  by (auto simp: toObject_def substitute_def split: sum.splits
      dest: substituteEntries_error simplifyEntries_error)

lemma toObject_not_InvalidArgument:
  "toObject h rt classNames state strict \<noteq> Inl InvalidArgument"
  using toObject_error [of h rt classNames state strict InvalidArgument] by auto

text \<open>
  Claim C8. The error of \<open>getValue\<close> is indeed out of reach of \<open>toObject\<close>
  (\<open>toObject_not_InvalidArgument\<close>: every name passed on starts with two hyphens), but
  \<open>toObject\<close> and \<open>toCSS\<close> do raise. \<open>collapseRule\<close> cuts the text of a declaration block
  at every semicolon and each part at its colons; a part without a colon stores
  \<open>undefined\<close> under its text, and \<open>substitute\<close> then calls \<open>matchAll\<close> on \<open>undefined\<close>.
  That happens for a value with a semicolon inside a string, as in
  \<^verbatim>\<open>--tw-content: "a;b"; content: var(--tw-content);\<close>.
\<close>

theorem toObject_raises_TypeError:
  "collapseActive (constructor semicolonSheet) [''content-semi'']
     = [(''--tw-content'', Str [CHR 0x22, CHR ''a'']), ([CHR ''b'', CHR 0x22], Undefined),
        (''content'', Str ''var(--tw-content)'')]
   \<and> toObject h (constructor semicolonSheet) (ClassString ''content-semi'') [] False
     = Inl TypeError
   \<and> toCSS h (constructor semicolonSheet) (ClassString ''content-semi'') [] False
     = Inl TypeError"
  by code_simp

text \<open>
  Short of that, the public functions return: whenever every value of the collapsed style
  object is a string and no name referred to in a value has a syntax character of
  regular expressions, \<open>toObject\<close> gives a style object. Class names that match no rule
  and references that do not resolve raise nothing.
\<close>

lemma substituteRefs_returns:
  "\<forall>nm\<in>set names. startsWith nm ''--'' \<and> isRegExpLiteral nm \<Longrightarrow>
     \<exists>v'. substituteRefs h rt style names v = Inr v'"
proof (induction names arbitrary: v)
  case Nil
  then show ?case by simp
next
  case (Cons nm names)
  from Cons.prems obtain r where r: "lookupValue rt style nm = Inr r"
    using lookupValue_returns [of nm rt style] by auto
  with Cons show ?case
    by (cases r) (auto simp: replaceVar_def)
qed

lemma substituteEntries_returns:
  "\<forall>(k, val)\<in>set es. \<exists>v. val = Str v \<and> (\<forall>nm\<in>set (matchAllVar v). isRegExpLiteral nm) \<Longrightarrow>
     \<exists>style'. substituteEntries h rt es style = Inr style'"
proof (induction es arbitrary: style)
  case Nil
  then show ?case by simp
next
  case (Cons entry es)
  obtain key val where entry: "entry = (key, val)" by (cases entry)
  with Cons.prems obtain v where v: "val = Str v"
    and lit: "\<forall>nm\<in>set (matchAllVar v). isRegExpLiteral nm"
    by auto
  from lit obtain v' where "substituteRefs h rt style (matchAllVar v) v = Inr v'"
    using substituteRefs_returns [of "matchAllVar v" h rt style v]
    by (auto simp: matchAllVar_hyphens)
  moreover have "\<exists>style'. substituteEntries h rt es (setProp key (Str (trim v')) style) = Inr style'"
    using Cons by simp
  ultimately show ?case by (simp add: entry v)
qed

lemma simplifyEntries_returns:
  "\<forall>(k, val)\<in>set es. \<exists>v. val = Str v \<Longrightarrow> \<exists>style'. simplifyEntries mul es style = Inr style'"
proof (induction es arbitrary: style)
  case Nil
  then show ?case by simp
next
  case (Cons entry es)
  obtain key val where entry: "entry = (key, val)" by (cases entry)
  with Cons.prems obtain v where v: "val = Str v" by auto
  have "\<exists>style'. simplifyEntries mul es (setProp key (Str (simplify mul v)) style) = Inr style'"
    using Cons by simp
  then show ?case by (simp add: entry v)
qed

lemma distinct_setProp: "distinct (map fst style) \<Longrightarrow> distinct (map fst (setProp k v style))"
  by (simp add: setProp_def distinct_update)

lemma distinct_writes:
  "distinct (map fst style) \<Longrightarrow> distinct (map fst (fold (\<lambda>(k, v). setProp k v) ws style))"
  by (induction ws arbitrary: style) (auto simp: distinct_setProp)

lemma distinct_collapseActive: "distinct (map fst (collapseActive rt active))"
  using collapseActive_writes [of active "allUtilityRules rt" "[]"]
  by (simp add: collapseActive_def isActiveRule_def [abs_def] distinct_writes)

lemma substitute_strings:
  assumes d: "distinct (map fst style)" and s: "substitute h rt style = Inr style'"
  shows "\<forall>(k, val)\<in>set style'. \<exists>v. val = Str v"
proof -
  from s obtain mid where
    mid: "substituteEntries h rt (entries style) style = Inr mid" and
    out: "style' = removeInternal rt mid"
    by (auto simp: substitute_def split: sum.splits)
  have keys_mid: "map fst mid = map fst style"
    using mid by (rule substituteEntries_keys) (simp add: set_entries)
  have vals: "\<forall>k\<in>fst ` set style. \<exists>w. map_of mid k = Some (Str (trim w))"
    using substituteEntries_values [OF mid] by (simp add: set_entries)
  have "\<exists>v. val = Str v" if "(k, val) \<in> set mid" for k val
  proof -
    have "map_of mid k = Some val"
      using d keys_mid that by simp
    moreover have "k \<in> fst ` set style"
      using that keys_mid by (metis list.set_map rev_image_eqI fst_conv)
    ultimately show ?thesis using vals by auto
  qed
  then show ?thesis
    by (auto simp: out removeInternal_filter)
qed

lemma toObject_returns:
  assumes "\<forall>(k, val)\<in>set (collapseActive rt (activeClasses classNames state strict)).
             \<exists>v. val = Str v \<and> (\<forall>nm\<in>set (matchAllVar v). isRegExpLiteral nm)"
  shows "\<exists>out. toObject h rt classNames state strict = Inr out"
proof -
  let ?collapsed = "collapseActive rt (activeClasses classNames state strict)"
  have "\<exists>mid. substituteEntries h rt (entries ?collapsed) ?collapsed = Inr mid"
    by (rule substituteEntries_returns) (use assms in \<open>simp add: set_entries\<close>)
  then obtain style where sub: "substitute h rt ?collapsed = Inr style"
    by (auto simp: substitute_def)
  have "\<forall>(k, val)\<in>set style. \<exists>v. val = Str v"
    using distinct_collapseActive sub by (rule substitute_strings)
  then have "\<exists>out. simplifyEntries (numberProduct h) (entries style) style = Inr out"
    by (intro simplifyEntries_returns) (simp add: set_entries)
  with sub show ?thesis
    by (simp add: toObject_def)
qed

section \<open>The later rule wins\<close>











section \<open>The shape of the simplifier\<close>














end
